theory Spec2Isabelle
  imports Complex_Main
begin

section \<open>Python values, exceptions and built-ins used by the evaluation code\<close>

text \<open>
  The exceptions the modelled functions can raise. \<open>IndexError\<close>, \<open>KeyError\<close>,
  \<open>ValueError\<close> and \<open>TypeError\<close> are Python's own; \<open>MissingLabel\<close> and
  \<open>FrameworkCannotHandleTask\<close> are the package's exceptions, with the keyword
  arguments they are constructed with (\<open>label\<close>, \<open>label2id\<close>; \<open>framework\<close>, \<open>task\<close>).
\<close>

datatype error =
    IndexError
  | KeyError
  | ValueError
  | TypeError
  | MissingLabel string "string \<rightharpoonup> int"
  | FrameworkCannotHandleTask string string

text \<open>
  Dynamically typed Python values, as far as the code inspects them with \<open>len\<close>,
  indexing, \<open>isinstance\<close> and \<open>==\<close>. Floats are modelled as reals (no NaN, no rounding).
\<close>

datatype pyval =
    PyNone
  | PyInt int
  | PyFloat real
  | PyStr string
  | PyList "pyval list"

text \<open>\<open>len(v)\<close>: defined on strings and sequences, a TypeError on numbers and None.\<close>

fun py_len :: "pyval \<Rightarrow> error + nat" where
  "py_len (PyStr s) = Inr (length s)"
| "py_len (PyList xs) = Inr (length xs)"
| "py_len PyNone = Inl TypeError"
| "py_len (PyInt i) = Inl TypeError"
| "py_len (PyFloat r) = Inl TypeError"

text \<open>\<open>v[0]\<close>: the first element of a sequence, the first character (a string of length
  one) of a string, IndexError when empty, TypeError on numbers and None.\<close>

fun py_getitem0 :: "pyval \<Rightarrow> error + pyval" where
  "py_getitem0 (PyStr s) = (case s of [] \<Rightarrow> Inl IndexError | c # _ \<Rightarrow> Inr (PyStr [c]))"
| "py_getitem0 (PyList xs) = (case xs of [] \<Rightarrow> Inl IndexError | x # _ \<Rightarrow> Inr x)"
| "py_getitem0 PyNone = Inl TypeError"
| "py_getitem0 (PyInt i) = Inl TypeError"
| "py_getitem0 (PyFloat r) = Inl TypeError"

fun isinstance_float :: "pyval \<Rightarrow> bool" where
  "isinstance_float (PyFloat r) = True"
| "isinstance_float PyNone = False"
| "isinstance_float (PyInt i) = False"
| "isinstance_float (PyStr s) = False"
| "isinstance_float (PyList xs) = False"

fun isinstance_str :: "pyval \<Rightarrow> bool" where
  "isinstance_str (PyStr s) = True"
| "isinstance_str PyNone = False"
| "isinstance_str (PyInt i) = False"
| "isinstance_str (PyFloat r) = False"
| "isinstance_str (PyList xs) = False"

text \<open>
  \<open>v == n\<close> for an integer \<open>n\<close>: numbers compare by value; a string, a list (or tuple)
  and None are never equal to an integer.
\<close>

fun py_eq_int :: "pyval \<Rightarrow> int \<Rightarrow> bool" where
  "py_eq_int (PyInt i) n = (i = n)"
| "py_eq_int (PyFloat r) n = (r = of_int n)"
| "py_eq_int PyNone n = False"
| "py_eq_int (PyStr s) n = False"
| "py_eq_int (PyList xs) n = False"

text \<open>\<open>xs[i]\<close> for a non-negative index \<open>i\<close>: IndexError when out of range.\<close>

definition py_get :: "'a list \<Rightarrow> nat \<Rightarrow> error + 'a" where
  "py_get xs i = (if i < length xs then Inr (xs ! i) else Inl IndexError)"

text \<open>\<open>xs[i]\<close> for any integer index: a negative index counts from the end.\<close>

definition py_get_int :: "'a list \<Rightarrow> int \<Rightarrow> error + 'a" where
  "py_get_int xs i =
     (if 0 \<le> i \<and> i < int (length xs) then Inr (xs ! nat i)
      else if i < 0 \<and> - int (length xs) \<le> i then Inr (xs ! nat (int (length xs) + i))
      else Inl IndexError)"

text \<open>\<open>xs.index(v)\<close>: the first position of \<open>v\<close>, ValueError when \<open>v\<close> is absent.\<close>

fun py_index :: "'a list \<Rightarrow> 'a \<Rightarrow> error + nat" where
  "py_index [] v = Inl ValueError"
| "py_index (x # xs) v =
     (if x = v then Inr 0
      else case py_index xs v of Inl e \<Rightarrow> Inl e | Inr k \<Rightarrow> Inr (Suc k))"

text \<open>\<open>xs[i:j]\<close>: negative bounds count from the end, bounds are clipped to the length.\<close>

definition py_slice :: "'a list \<Rightarrow> int \<Rightarrow> int \<Rightarrow> 'a list" where
  "py_slice xs i j =
     (let n = int (length xs);
          lo = (if i < 0 then max 0 (i + n) else min i n);
          hi = (if j < 0 then max 0 (j + n) else min j n)
      in if lo < hi then take (nat (hi - lo)) (drop (nat lo) xs) else [])"

text \<open>
  \<open>s.upper()\<close> and \<open>s.lstrip()\<close> on ASCII strings: the letters a to z (codes 97
  to 122) are mapped to A to Z, that is, 32 is subtracted from the code, which clears
  the bit of weight 32; the ASCII whitespace characters (codes 9 to 13 and 28 to 32) are
  stripped from the left.
\<close>

definition upper_char :: "char \<Rightarrow> char" where
  "upper_char c =
     (let n = (of_char c :: nat)
      in if 97 \<le> n \<and> n \<le> 122
         then Char (digit0 c) (digit1 c) (digit2 c) (digit3 c) (digit4 c) False
                (digit6 c) (digit7 c)
         else c)"

definition upper :: "string \<Rightarrow> string" where
  "upper s = map upper_char s"

definition isspace :: "char \<Rightarrow> bool" where
  "isspace c = (let n = (of_char c :: nat) in (9 \<le> n \<and> n \<le> 13) \<or> (28 \<le> n \<and> n \<le> 32))"

definition lstrip :: "string \<Rightarrow> string" where
  "lstrip s = dropWhile isspace s"

text \<open>
  \<open>sorted(xs, key=f, reverse=True)\<close>: Python's sort is stable and \<open>reverse=True\<close>
  keeps the original order of elements with equal keys (the list is reversed, sorted
  stably and reversed again).
\<close>

definition sorted_reverse :: "('a \<Rightarrow> 'k::linorder) \<Rightarrow> 'a list \<Rightarrow> 'a list" where
  "sorted_reverse f xs = rev (sort_key f (rev xs))"

text \<open>
  \<open>np.argsort(xs)\<close>: the indices of \<open>xs\<close> in ascending order of value. numpy does not
  fix the order of indices with equal values; the model takes the stable order. No
  stated property depends on the order among ties.
\<close>

definition argsort :: "real list \<Rightarrow> nat list" where
  "argsort xs = map fst (sort_key snd (enumerate 0 xs))"


section \<open>Sequence classification: turning labels into ids\<close>

text \<open>
  \<open>SequenceClassification._create_numerical_labels\<close>. The list comprehension looks
  \<open>lbl.upper()\<close> up in \<open>label2id\<close> for each label in turn; the first KeyError is caught
  and replaced by \<open>MissingLabel\<close>, built from the uppercased form of the first label
  whose uppercased form is not a key, and from the mapping.
\<close>

fun lookup_labels :: "(string \<rightharpoonup> int) \<Rightarrow> string list \<Rightarrow> error + int list" where
  "lookup_labels label2id [] = Inr []"
| "lookup_labels label2id (lbl # lbls) =
     (case label2id (upper lbl) of
        None \<Rightarrow> Inl KeyError
      | Some i \<Rightarrow>
          (case lookup_labels label2id lbls of
             Inl e \<Rightarrow> Inl e
           | Inr is \<Rightarrow> Inr (i # is)))"

definition create_numerical_labels :: "string list \<Rightarrow> (string \<rightharpoonup> int) \<Rightarrow> error + int list" where
  "create_numerical_labels labels label2id =
     (case lookup_labels label2id labels of
        Inr ids \<Rightarrow> Inr ids
      | Inl e \<Rightarrow>
          (let missing_label =
                 hd (filter (\<lambda>u. label2id u = None) (map upper labels))
           in Inl (MissingLabel missing_label label2id)))"


section \<open>Question answering: the task class\<close>

text \<open>
  \<open>QuestionAnswering._check_if_model_is_trained_for_task\<close>. The four assignments are
  evaluated in the order of the source, so that \<open>len(sample_preds[0])\<close> and
  \<open>sample_preds[0][0]\<close> are computed (and may raise) before the string test.
\<close>

definition check_if_model_is_trained_for_task :: "pyval list \<Rightarrow> error + bool" where
  "check_if_model_is_trained_for_task model_predictions =
     (case py_get model_predictions 0 of
        Inl e \<Rightarrow> Inl e
      | Inr sample_preds \<Rightarrow>
     (case py_getitem0 sample_preds of
        Inl e \<Rightarrow> Inl e
      | Inr first \<Rightarrow>
     (case py_len first of
        Inl e \<Rightarrow> Inl e
      | Inr n \<Rightarrow>
     (case py_getitem0 first of
        Inl e \<Rightarrow> Inl e
      | Inr leaf \<Rightarrow>
          (let elements_are_pairs = (n = 2);
               leaves_are_floats = isinstance_float leaf;
               elements_are_strings = isinstance_str first
           in Inr ((elements_are_pairs \<and> leaves_are_floats) \<or> elements_are_strings))))))"

text \<open>
  What the check is documented to compute, written from the words of the specification:
  true exactly when the first element of the first prediction is a sequence of length two
  whose first entry is a float, or a string; false for every other shape.
\<close>

fun is_float_pair_or_str :: "pyval \<Rightarrow> bool" where
  "is_float_pair_or_str (PyStr s) = True"
| "is_float_pair_or_str (PyList xs) =
     (case xs of [a, b] \<Rightarrow> isinstance_float a | _ \<Rightarrow> False)"
| "is_float_pair_or_str PyNone = False"
| "is_float_pair_or_str (PyInt i) = False"
| "is_float_pair_or_str (PyFloat r) = False"

text \<open>
  The part of \<open>TaskConfig\<close> the task class reads (\<open>config.py\<close> is not among the
  sources; only the field \<open>pretty_name\<close> is used here).
\<close>

record task_config =
  pretty_name :: string

text \<open>
  \<open>QuestionAnswering._spacy_preprocess_fn\<close> and \<open>_extract_spacy_predictions\<close>: both
  raise \<open>FrameworkCannotHandleTask\<close> whatever their argument.
\<close>

definition spacy_preprocess_fn :: "task_config \<Rightarrow> 'examples \<Rightarrow> error + 'features" where
  "spacy_preprocess_fn cfg examples = Inl (FrameworkCannotHandleTask ''spaCy'' (pretty_name cfg))"

definition extract_spacy_predictions :: "task_config \<Rightarrow> 'tokens \<Rightarrow> error + 'predictions" where
  "extract_spacy_predictions cfg tokens_processed =
     Inl (FrameworkCannotHandleTask ''spaCy'' (pretty_name cfg))"


section \<open>Question answering: building the features\<close>

text \<open>
  The columns of the example batch that \<open>prepare_test_examples\<close> reads, and the
  tokenizer's output: one row per window, with the token ids, the character span of each
  token, the sequence id of each token (\<open>None\<close> for special and padding tokens, 0 for
  the question, 1 for the context; the method \<open>sequence_ids(i)\<close>), and the index of the
  example each window comes from.
\<close>

record example_batch =
  batch_id :: "string list"
  batch_question :: "string list"
  batch_context :: "string list"

record batch_encoding =
  enc_input_ids :: "int list list"
  enc_offset_mapping :: "(int \<times> int) list list"
  enc_sequence_ids :: "nat option list list"
  overflow_to_sample_mapping :: "int list"

text \<open>
  The tokenizer is an external collaborator: its maximal length and its call, with the
  arguments that vary (questions, contexts, \<open>max_length\<close>, \<open>stride\<close>).
\<close>

record tokenizer =
  model_max_length :: int
  tokenize :: "string list \<Rightarrow> string list \<Rightarrow> int \<Rightarrow> int \<Rightarrow> batch_encoding"

record prepared_batch =
  prep_input_ids :: "int list list"
  prep_offset_mapping :: "(int \<times> int) list list"
  prep_id :: "string list"

definition context_index :: nat where
  "context_index = 1"

text \<open>
  The list comprehension that rewrites one window's offsets, over
  \<open>enumerate(offset_mapping[i])\<close>; \<open>sequence_ids[k]\<close> raises when \<open>k\<close> is out of range.
\<close>

fun rewrite_offsets ::
  "nat option list \<Rightarrow> (nat \<times> (int \<times> int)) list \<Rightarrow> error + (int \<times> int) list" where
  "rewrite_offsets sequence_ids [] = Inr []"
| "rewrite_offsets sequence_ids ((k, off) # rest) =
     (case py_get sequence_ids k of
        Inl e \<Rightarrow> Inl e
      | Inr sid \<Rightarrow>
          (case rewrite_offsets sequence_ids rest of
             Inl e \<Rightarrow> Inl e
           | Inr offs \<Rightarrow> Inr ((if sid = Some context_index then off else (-1, -1)) # offs)))"

text \<open>
  The loop \<open>for i in range(len(tokenized_examples["input_ids"]))\<close>; the state is the
  \<open>id\<close> column built so far and the offset mapping, updated row by row.
\<close>

fun prepare_loop ::
  "string list \<Rightarrow> nat option list list \<Rightarrow> int list \<Rightarrow> nat list \<Rightarrow>
   string list \<times> (int \<times> int) list list \<Rightarrow> error + string list \<times> (int \<times> int) list list" where
  "prepare_loop example_ids seq_ids sample_mapping [] st = Inr st"
| "prepare_loop example_ids seq_ids sample_mapping (i # rest) (ids, offsets) =
     (case py_get seq_ids i of
        Inl e \<Rightarrow> Inl e
      | Inr sequence_ids \<Rightarrow>
     (case py_get sample_mapping i of
        Inl e \<Rightarrow> Inl e
      | Inr sample_index \<Rightarrow>
     (case py_get_int example_ids sample_index of
        Inl e \<Rightarrow> Inl e
      | Inr ident \<Rightarrow>
     (case py_get offsets i of
        Inl e \<Rightarrow> Inl e
      | Inr row \<Rightarrow>
     (case rewrite_offsets sequence_ids (enumerate 0 row) of
        Inl e \<Rightarrow> Inl e
      | Inr row' \<Rightarrow>
          prepare_loop example_ids seq_ids sample_mapping rest
            (ids @ [ident], offsets[i := row']))))))"

definition prepare_test_examples :: "example_batch \<Rightarrow> tokenizer \<Rightarrow> error + prepared_batch" where
  "prepare_test_examples examples tokenizer =
     (let question = map lstrip (batch_question examples);
          stride = model_max_length tokenizer div 4;
          max_length = model_max_length tokenizer - stride;
          tokenized_examples = tokenize tokenizer question (batch_context examples) max_length stride;
          sample_mapping = overflow_to_sample_mapping tokenized_examples
      in case prepare_loop (batch_id examples) (enc_sequence_ids tokenized_examples) sample_mapping
                [0 ..< length (enc_input_ids tokenized_examples)]
                ([], enc_offset_mapping tokenized_examples) of
           Inl e \<Rightarrow> Inl e
         | Inr (ids, offsets) \<Rightarrow>
             Inr \<lparr>prep_input_ids = enc_input_ids tokenized_examples,
                  prep_offset_mapping = offsets,
                  prep_id = ids\<rparr>)"


section \<open>Question answering: resolving the answer spans\<close>

record gold_answers =
  gold_text :: "string list"
  answer_start :: "int list"

record example =
  example_id :: string
  question :: string
  context_str :: string
  answers :: gold_answers

record feature =
  feature_id :: string
  input_ids :: "int list"
  offset_mapping :: "(int \<times> int) list"

record valid_answer =
  score :: real
  answer_text :: string

record prediction =
  prediction_id :: string
  prediction_text :: string
  no_answer_probability :: real

record label =
  label_id :: string
  label_answers :: gold_answers

text \<open>
  \<open>np.asarray(predictions)[:, :, 0]\<close> and \<open>[:, :, 1]\<close>. The predictions are one row per
  feature, one pair (start logit, end logit) per token position. The array has three
  dimensions only if there is a row, the rows are not empty and all rows have the same
  length; otherwise numpy raises (a ValueError for ragged rows, an IndexError for too
  many indices).
\<close>

definition split_logits ::
  "(real \<times> real) list list \<Rightarrow> error + real list list \<times> real list list" where
  "split_logits predictions =
     (case predictions of
        [] \<Rightarrow> Inl IndexError
      | row # rows \<Rightarrow>
          if list_ex (\<lambda>r. length r \<noteq> length row) rows then Inl ValueError
          else if row = [] then Inl IndexError
          else Inr (map (map fst) predictions, map (map snd) predictions))"

text \<open>\<open>{k: i for i, k in enumerate(dataset["id"])}\<close>: a later example with the same id
  overwrites an earlier one.\<close>

definition id_to_index_of :: "string list \<Rightarrow> (string \<rightharpoonup> nat)" where
  "id_to_index_of ids = fold (\<lambda>(i, k) m. m(k \<mapsto> i)) (enumerate 0 ids) Map.empty"

text \<open>
  The loop filling \<open>features_per_example\<close>, a \<open>defaultdict(list)\<close>: a total function
  whose default value is the empty list. \<open>id_to_index[id]\<close> raises KeyError for an id
  that no example has.
\<close>

fun group_features ::
  "(string \<rightharpoonup> nat) \<Rightarrow> (nat \<times> feature) list \<Rightarrow> (nat \<Rightarrow> nat list) \<Rightarrow> error + (nat \<Rightarrow> nat list)" where
  "group_features id_to_index [] features_per_example = Inr features_per_example"
| "group_features id_to_index ((i, feature) # rest) features_per_example =
     (case id_to_index (feature_id feature) of
        None \<Rightarrow> Inl KeyError
      | Some example_index \<Rightarrow>
          group_features id_to_index rest
            (features_per_example
               (example_index := features_per_example example_index @ [i])))"

text \<open>
  An offset-mapping entry as the Python value the dataset returns: a sequence of two
  integers.
\<close>

definition offset_value :: "int \<times> int \<Rightarrow> pyval" where
  "offset_value off = PyList [PyInt (fst off), PyInt (snd off)]"

text \<open>
  The first guard of the inner loop (\<open>continue\<close> when it holds). The \<open>or\<close> chain is
  evaluated left to right, so the offsets are read only at indices in range. The
  entries are compared with the integer \<open>-1\<close>, as the source does.
\<close>

definition out_of_scope :: "(int \<times> int) list \<Rightarrow> nat \<Rightarrow> nat \<Rightarrow> bool" where
  "out_of_scope offsets start_index end_index =
     (if start_index \<ge> length offsets then True
      else if end_index \<ge> length offsets then True
      else if py_eq_int (offset_value (offsets ! start_index)) (-1) then True
      else py_eq_int (offset_value (offsets ! end_index)) (-1))"

text \<open>The second guard: the span has a negative length or is longer than
  \<open>max_answer_length\<close> tokens.\<close>

definition bad_length :: "nat \<Rightarrow> nat \<Rightarrow> bool" where
  "bad_length start_index end_index =
     (let max_answer_length = 30;
          max_val = max_answer_length + start_index - 1
      in end_index < start_index \<or> end_index > max_val)"

text \<open>A pair of indices is recorded as a valid answer when neither guard holds.\<close>

definition span_accepted :: "(int \<times> int) list \<Rightarrow> nat \<Rightarrow> nat \<Rightarrow> bool" where
  "span_accepted offsets start_index end_index =
     (if out_of_scope offsets start_index end_index then False
      else if bad_length start_index end_index then False
      else True)"

text \<open>The body of the two nested loops for one pair of indices: the answers it appends.\<close>

definition span_answers ::
  "string \<Rightarrow> (int \<times> int) list \<Rightarrow> real list \<Rightarrow> real list \<Rightarrow> nat \<Rightarrow> nat \<Rightarrow> valid_answer list" where
  "span_answers ctx offsets start_logits end_logits start_index end_index =
     (if span_accepted offsets start_index end_index then
        (let start_char = fst (offsets ! start_index);
             end_char = snd (offsets ! end_index);
             sc = start_logits ! start_index + end_logits ! end_index;
             txt = py_slice ctx start_char end_char
         in [\<lparr>score = sc, answer_text = txt\<rparr>])
      else [])"

text \<open>\<open>np.argsort(logits)[-1 : -n_best_size - 1 : -1].tolist()\<close>: the indices of the
  \<open>n_best_size\<close> greatest logits, greatest first.\<close>

definition n_best_size :: nat where
  "n_best_size = 20"

definition best_indexes :: "real list \<Rightarrow> nat list" where
  "best_indexes logits = take n_best_size (rev (argsort logits))"

definition feature_answers ::
  "string \<Rightarrow> (int \<times> int) list \<Rightarrow> real list \<Rightarrow> real list \<Rightarrow> valid_answer list" where
  "feature_answers ctx offsets start_logits end_logits =
     (let start_indexes = best_indexes start_logits;
          end_indexes = best_indexes end_logits
      in concat (map (\<lambda>start_index.
           concat (map (\<lambda>end_index.
             span_answers ctx offsets start_logits end_logits start_index end_index)
             end_indexes))
           start_indexes))"

text \<open>The null score of a feature: the two logits at the position of the CLS token.\<close>

definition feature_null_score :: "feature \<Rightarrow> real list \<Rightarrow> real list \<Rightarrow> int \<Rightarrow> error + real" where
  "feature_null_score features start_logits end_logits cls_token_index =
     (case py_index (input_ids features) cls_token_index of
        Inl e \<Rightarrow> Inl e
      | Inr cls_index \<Rightarrow>
     (case py_get start_logits cls_index of
        Inl e \<Rightarrow> Inl e
      | Inr s \<Rightarrow>
     (case py_get end_logits cls_index of
        Inl e \<Rightarrow> Inl e
      | Inr t \<Rightarrow> Inr (s + t))))"

text \<open>
  The body of \<open>for feature_index in feature_indices\<close>; the state is the running
  \<open>min_null_score\<close> and the list \<open>valid_answers\<close>.
\<close>

definition resolve_feature ::
  "feature list \<Rightarrow> real list list \<Rightarrow> real list list \<Rightarrow> int \<Rightarrow> string \<Rightarrow> nat \<Rightarrow>
   real \<times> valid_answer list \<Rightarrow> error + real \<times> valid_answer list" where
  "resolve_feature prepared_dataset all_start_logits all_end_logits cls_token_index ctx
     feature_index st =
     (case py_get prepared_dataset feature_index of
        Inl e \<Rightarrow> Inl e
      | Inr features \<Rightarrow>
     (case py_get all_start_logits feature_index of
        Inl e \<Rightarrow> Inl e
      | Inr start_logits \<Rightarrow>
     (case py_get all_end_logits feature_index of
        Inl e \<Rightarrow> Inl e
      | Inr end_logits \<Rightarrow>
     (case feature_null_score features start_logits end_logits cls_token_index of
        Inl e \<Rightarrow> Inl e
      | Inr null_score \<Rightarrow>
          (let min_null_score = (if fst st < null_score then null_score else fst st)
           in Inr (min_null_score,
                   snd st @ feature_answers ctx (offset_mapping features)
                              start_logits end_logits))))))"

fun resolve_features ::
  "feature list \<Rightarrow> real list list \<Rightarrow> real list list \<Rightarrow> int \<Rightarrow> string \<Rightarrow> nat list \<Rightarrow>
   real \<times> valid_answer list \<Rightarrow> error + real \<times> valid_answer list" where
  "resolve_features prepared_dataset all_start_logits all_end_logits cls_token_index ctx [] st =
     Inr st"
| "resolve_features prepared_dataset all_start_logits all_end_logits cls_token_index ctx
     (feature_index # rest) st =
     (case resolve_feature prepared_dataset all_start_logits all_end_logits cls_token_index ctx
             feature_index st of
        Inl e \<Rightarrow> Inl e
      | Inr st' \<Rightarrow>
          resolve_features prepared_dataset all_start_logits all_end_logits cls_token_index ctx
            rest st')"

text \<open>The best answer: the first of the answers sorted by decreasing score, or the fake
  answer when there is none.\<close>

definition best_answer_of :: "valid_answer list \<Rightarrow> valid_answer" where
  "best_answer_of valid_answers =
     (if length valid_answers > 0 then hd (sorted_reverse score valid_answers)
      else \<lparr>score = 0, answer_text = ''''\<rparr>)"

definition final_prediction :: "example \<Rightarrow> real \<Rightarrow> valid_answer list \<Rightarrow> prediction" where
  "final_prediction ex min_null_score valid_answers =
     (let best_answer = best_answer_of valid_answers;
          txt = (if score best_answer > min_null_score then answer_text best_answer else '''')
      in \<lparr>prediction_id = example_id ex,
          prediction_text = txt,
          no_answer_probability = 0\<rparr>)"

text \<open>The body of \<open>for example_index, example in enumerate(dataset)\<close>.\<close>

definition resolve_example ::
  "feature list \<Rightarrow> real list list \<Rightarrow> real list list \<Rightarrow> int \<Rightarrow> (nat \<Rightarrow> nat list) \<Rightarrow>
   nat \<Rightarrow> example \<Rightarrow> error + prediction" where
  "resolve_example prepared_dataset all_start_logits all_end_logits cls_token_index
     features_per_example example_index ex =
     (let feature_indices = features_per_example example_index
      in case resolve_features prepared_dataset all_start_logits all_end_logits cls_token_index
                (context_str ex) feature_indices (0, []) of
           Inl e \<Rightarrow> Inl e
         | Inr (min_null_score, valid_answers) \<Rightarrow>
             Inr (final_prediction ex min_null_score valid_answers))"

fun resolve_examples ::
  "feature list \<Rightarrow> real list list \<Rightarrow> real list list \<Rightarrow> int \<Rightarrow> (nat \<Rightarrow> nat list) \<Rightarrow>
   (nat \<times> example) list \<Rightarrow> error + prediction list" where
  "resolve_examples prepared_dataset all_start_logits all_end_logits cls_token_index
     features_per_example [] = Inr []"
| "resolve_examples prepared_dataset all_start_logits all_end_logits cls_token_index
     features_per_example ((example_index, ex) # rest) =
     (case resolve_example prepared_dataset all_start_logits all_end_logits cls_token_index
             features_per_example example_index ex of
        Inl e \<Rightarrow> Inl e
      | Inr p \<Rightarrow>
          (case resolve_examples prepared_dataset all_start_logits all_end_logits
                  cls_token_index features_per_example rest of
             Inl e \<Rightarrow> Inl e
           | Inr ps \<Rightarrow> Inr (p # ps)))"

definition features_per_example_of :: "example list \<Rightarrow> feature list \<Rightarrow> error + (nat \<Rightarrow> nat list)" where
  "features_per_example_of dataset prepared_dataset =
     group_features (id_to_index_of (map example_id dataset))
       (enumerate 0 prepared_dataset) (\<lambda>example_index. [])"

definition postprocess_predictions ::
  "(real \<times> real) list list \<Rightarrow> example list \<Rightarrow> feature list \<Rightarrow> int \<Rightarrow> error + prediction list" where
  "postprocess_predictions predictions dataset prepared_dataset cls_token_index =
     (case split_logits predictions of
        Inl e \<Rightarrow> Inl e
      | Inr (all_start_logits, all_end_logits) \<Rightarrow>
     (case features_per_example_of dataset prepared_dataset of
        Inl e \<Rightarrow> Inl e
      | Inr features_per_example \<Rightarrow>
          resolve_examples prepared_dataset all_start_logits all_end_logits cls_token_index
            features_per_example (enumerate 0 dataset)))"

definition postprocess_labels :: "example list \<Rightarrow> label list" where
  "postprocess_labels dataset =
     map (\<lambda>ex. \<lparr>label_id = example_id ex,
                label_answers = \<lparr>gold_text = gold_text (answers ex),
                                  answer_start = answer_start (answers ex)\<rparr>\<rparr>) dataset"


section \<open>The preprocessing stage of the question-answering task\<close>

text \<open>\<open>QuestionAnswering._pytorch_preprocess_fn\<close>: the feature builder, whatever the
  model and task configurations.\<close>

definition pytorch_preprocess_fn ::
  "example_batch \<Rightarrow> tokenizer \<Rightarrow> 'model_config \<Rightarrow> task_config \<Rightarrow> error + prepared_batch" where
  "pytorch_preprocess_fn examples tokenizer pytorch_model_config cfg =
     prepare_test_examples examples tokenizer"

text \<open>
  Modelled from the spec: the stage sequence of the task orchestrator (the class
  \<open>Task\<close> of \<open>task.py\<close> and the enumeration \<open>Framework\<close> are not among the sources).
  Following the component design of the orchestrator: the preprocessing stage dispatches
  on the framework; when it fails the pipeline aborts with that failure, before any
  inference call and without a second attempt; otherwise the external model is called
  once on the features. The result records the outcome and how often each stage ran.
\<close>

datatype framework = PYTORCH | SPACY

record 'raw stage_result =
  outcome :: "error + 'raw"
  preprocess_calls :: nat
  inference_calls :: nat

definition preprocess_stage ::
  "framework \<Rightarrow> task_config \<Rightarrow> tokenizer \<Rightarrow> example_batch \<Rightarrow> error + prepared_batch" where
  "preprocess_stage fw cfg tok examples =
     (case fw of
        SPACY \<Rightarrow> spacy_preprocess_fn cfg examples
      | PYTORCH \<Rightarrow> pytorch_preprocess_fn examples tok () cfg)"

definition preprocess_and_predict ::
  "framework \<Rightarrow> task_config \<Rightarrow> tokenizer \<Rightarrow> example_batch \<Rightarrow> (prepared_batch \<Rightarrow> 'raw) \<Rightarrow>
   'raw stage_result" where
  "preprocess_and_predict fw cfg tok examples predict =
     (case preprocess_stage fw cfg tok examples of
        Inl e \<Rightarrow> \<lparr>outcome = Inl e, preprocess_calls = 1, inference_calls = 0\<rparr>
      | Inr features \<Rightarrow>
          \<lparr>outcome = Inr (predict features), preprocess_calls = 1, inference_calls = 1\<rparr>)"


section \<open>Concrete inputs\<close>

text \<open>A label mapping with a synonym, as built from a label table.\<close>

definition sentiment_label2id :: "string \<rightharpoonup> int" where
  "sentiment_label2id = [''NEGATIVE'' \<mapsto> 0, ''NEG'' \<mapsto> 0, ''POSITIVE'' \<mapsto> 1]"

text \<open>
  One example with one window of three tokens: the CLS token (id 101), one context token
  covering the characters 0 to 5, and one padding token. The offsets of the CLS and the
  padding token are the pair \<open>(-1, -1)\<close> that the feature builder writes.
\<close>

definition paris_dataset :: "example list" where
  "paris_dataset =
     [\<lparr>example_id = ''q1'', question = ''What is the capital of France?'',
       context_str = ''Paris'',
       answers = \<lparr>gold_text = [''Paris''], answer_start = [0]\<rparr>\<rparr>]"

definition paris_features :: "feature list" where
  "paris_features =
     [\<lparr>feature_id = ''q1'', input_ids = [101, 7, 0],
       offset_mapping = [(-1, -1), (0, 5), (-1, -1)]\<rparr>]"

definition paris_logits :: "(real \<times> real) list list" where
  "paris_logits = [[(0, 0), (5, 1), (0, 5)]]"


text \<open>
  Two examples and two windows, both of the first example; the second example has no
  window. The logits of the two windows are given as pairs and, split, as the two arrays
  of start and end logits.
\<close>

definition rome_dataset :: "example list" where
  "rome_dataset =
     [\<lparr>example_id = ''q2'', question = ''Which city is old?'', context_str = ''Rome is old'',
       answers = \<lparr>gold_text = [''Rome''], answer_start = [0]\<rparr>\<rparr>,
      \<lparr>example_id = ''q3'', question = ''Who?'', context_str = ''No window'',
       answers = \<lparr>gold_text = [], answer_start = []\<rparr>\<rparr>]"

definition rome_features :: "feature list" where
  "rome_features =
     [\<lparr>feature_id = ''q2'', input_ids = [101, 5, 6],
       offset_mapping = [(-1, -1), (0, 4), (5, 7)]\<rparr>,
      \<lparr>feature_id = ''q2'', input_ids = [101, 6, 7],
       offset_mapping = [(-1, -1), (5, 7), (8, 11)]\<rparr>]"

definition rome_logits :: "(real \<times> real) list list" where
  "rome_logits = [[(1, 1), (4, 3), (0, 0.5)], [(0.5, 0.5), (0, 0), (1, 1)]]"

definition rome_start_logits :: "real list list" where
  "rome_start_logits = [[1, 4, 0], [0.5, 0, 1]]"

definition rome_end_logits :: "real list list" where
  "rome_end_logits = [[1, 3, 0.5], [0.5, 0, 1]]"

definition rome_features_per_example :: "nat \<Rightarrow> nat list" where
  "rome_features_per_example = (\<lambda>example_index. [])(0 := [0, 1])"

definition rome_predictions :: "prediction list" where
  "rome_predictions =
     [\<lparr>prediction_id = ''q2'', prediction_text = ''Rome'', no_answer_probability = 0\<rparr>,
      \<lparr>prediction_id = ''q3'', prediction_text = '''', no_answer_probability = 0\<rparr>]"

definition headless_features :: "feature list" where
  "headless_features =
     [\<lparr>feature_id = ''q2'', input_ids = [5, 6, 0],
       offset_mapping = [(0, 4), (5, 7), (-1, -1)]\<rparr>]"


text \<open>A tokenizer with a constant output of one window: CLS, one question token, SEP,
  one context token, SEP and one padding token.\<close>

definition toy_examples :: example_batch where
  "toy_examples =
     \<lparr>batch_id = [''q1''], batch_question = [''  Who?''], batch_context = [''Paris'']\<rparr>"

definition toy_encoding :: batch_encoding where
  "toy_encoding =
     \<lparr>enc_input_ids = [[101, 5, 102, 6, 102, 0]],
      enc_offset_mapping = [[(0, 0), (0, 4), (0, 0), (0, 5), (0, 0), (0, 0)]],
      enc_sequence_ids = [[None, Some 0, None, Some 1, None, None]],
      overflow_to_sample_mapping = [0]\<rparr>"

definition toy_tokenizer :: tokenizer where
  "toy_tokenizer =
     \<lparr>model_max_length = 8,
      tokenize = (\<lambda>questions contexts max_length stride. toy_encoding)\<rparr>"

definition toy_prepared :: prepared_batch where
  "toy_prepared =
     \<lparr>prep_input_ids = [[101, 5, 102, 6, 102, 0]],
      prep_offset_mapping = [[(-1, -1), (-1, -1), (-1, -1), (0, 5), (-1, -1), (-1, -1)]],
      prep_id = [''q1'']\<rparr>"


section \<open>Properties\<close>

lemmas resolver_defs =
  postprocess_predictions_def split_logits_def features_per_example_of_def id_to_index_of_def
  resolve_example_def resolve_feature_def feature_null_score_def py_get_def
  feature_answers_def best_indexes_def n_best_size_def argsort_def span_answers_def
  span_accepted_def out_of_scope_def bad_length_def offset_value_def py_slice_def
  final_prediction_def best_answer_of_def sorted_reverse_def

subsection \<open>Uppercasing\<close>

lemma of_char_upper_char:
  "(of_char (upper_char c) :: nat) =
     (if 97 \<le> (of_char c :: nat) \<and> (of_char c :: nat) \<le> 122 then of_char c - 32 else of_char c)"
  by (cases c) (auto simp: upper_char_def Let_def)

subsection \<open>Span filtering\<close>

text \<open>
  What the two guards of the inner loop do check: both indices are in range, the end is
  not before the start, and the span has at most 30 tokens. The comparison of an offset
  entry with \<open>-1\<close> never holds, so the entries are not looked at.
\<close>

lemma out_of_scope_iff:
  "out_of_scope offsets s e \<longleftrightarrow> s \<ge> length offsets \<or> e \<ge> length offsets"
  by (simp add: out_of_scope_def offset_value_def)

lemma span_accepted_iff:
  "span_accepted offsets s e \<longleftrightarrow>
     s < length offsets \<and> e < length offsets \<and> s \<le> e \<and> e - s + 1 \<le> 30"
  by (auto simp: span_accepted_def out_of_scope_iff bad_length_def)

text \<open>
  C1. Every span the resolver records has its start at most at its end, at most 30
  tokens, both indices within the offset mapping and neither offset equal to the
  pair \<open>(-1, -1)\<close>. The code does not reject the pair \<open>(-1, -1)\<close>: in the window below the
  span from the context token (index 1) to the padding token (index 2) is accepted, its
  text is cut with the end offset \<open>-1\<close>, and the prediction for the context \<open>Paris\<close> is
  \<open>Pari\<close>.
\<close>

theorem sentinel_span_is_accepted:
  "offset_mapping (hd paris_features) ! 2 = (-1, -1) \<and>
   span_accepted (offset_mapping (hd paris_features)) 1 2 \<and>
   postprocess_predictions paris_logits paris_dataset paris_features 101 =
     Inr [\<lparr>prediction_id = ''q1'', prediction_text = ''Pari'', no_answer_probability = 0\<rparr>]"
  by (simp add: resolver_defs paris_dataset_def paris_features_def paris_logits_def)

subsection \<open>Label canonicalization\<close>

lemma lookup_labels_result:
  "lookup_labels label2id labels =
     (if \<forall>lbl \<in> set labels. label2id (upper lbl) \<noteq> None
      then Inr (map (\<lambda>lbl. the (label2id (upper lbl))) labels)
      else Inl KeyError)"
  by (induction labels) (auto split: option.splits sum.splits)

lemma first_missing_upper:
  assumes "\<exists>lbl \<in> set labels. P (upper lbl)"
  shows "hd (filter P (map upper labels)) = upper (hd (filter (\<lambda>lbl. P (upper lbl)) labels))"
proof -
  have ne: "filter (\<lambda>lbl. P (upper lbl)) labels \<noteq> []"
    using assms by (auto simp: filter_empty_conv)
  have "filter P (map upper labels) = map upper (filter (\<lambda>lbl. P (upper lbl)) labels)"
    by (simp add: filter_map comp_def)
  then show ?thesis using ne by (simp add: hd_map)
qed

text \<open>
  C6, as the code has it. When the uppercased form of every label of the batch is a key
  of the mapping, the result is the list of the ids mapped from the uppercased labels.
  Otherwise the call fails with \<open>MissingLabel\<close>, which carries the mapping and the
  uppercased form of the first label whose uppercased form is not a key (not the raw
  label).
\<close>

theorem create_numerical_labels_result:
  "create_numerical_labels labels label2id =
     (if \<forall>lbl \<in> set labels. label2id (upper lbl) \<noteq> None
      then Inr (map (\<lambda>lbl. the (label2id (upper lbl))) labels)
      else Inl (MissingLabel
                  (upper (hd (filter (\<lambda>lbl. label2id (upper lbl) = None) labels)))
                  label2id))"
proof (cases "\<forall>lbl \<in> set labels. label2id (upper lbl) \<noteq> None")
  case True
  then show ?thesis
    by (simp add: create_numerical_labels_def lookup_labels_result)
next
  case False
  then have ex: "\<exists>lbl \<in> set labels. label2id (upper lbl) = None" by auto
  have "hd (filter (\<lambda>u. label2id u = None) (map upper labels)) =
        upper (hd (filter (\<lambda>lbl. label2id (upper lbl) = None) labels))"
    using first_missing_upper [of labels "\<lambda>u. label2id u = None"] ex by simp
  with False show ?thesis
    by (simp add: create_numerical_labels_def lookup_labels_result)
qed

theorem create_numerical_labels_witness:
  "create_numerical_labels [''neg'', ''Positive''] sentiment_label2id = Inr [0, 1] \<and>
   create_numerical_labels [''neg'', ''neutral'', ''mixed''] sentiment_label2id =
     Inl (MissingLabel ''NEUTRAL'' sentiment_label2id)"
  using create_numerical_labels_result [of "[''neg'', ''Positive'']" sentiment_label2id]
        create_numerical_labels_result [of "[''neg'', ''neutral'', ''mixed'']" sentiment_label2id]
  by (simp add: sentiment_label2id_def upper_def upper_char_def)

text \<open>
  The error does not carry the raw label: for \<open>neutral\<close>, which has no entry, it is not
  the error built from \<open>neutral\<close> itself.
\<close>

theorem missing_label_raw_value_counterexample:
  "sentiment_label2id (upper ''neutral'') = None \<and>
   create_numerical_labels [''neutral''] sentiment_label2id \<noteq>
     Inl (MissingLabel ''neutral'' sentiment_label2id)"
  by (simp add: create_numerical_labels_def sentiment_label2id_def upper_def upper_char_def)

subsection \<open>The check of the shape of the predictions\<close>

text \<open>Whenever the check returns, it returns what the specification says.\<close>

lemma check_when_it_returns:
  "check_if_model_is_trained_for_task (PyList (v # vs) # ps) = Inr b \<Longrightarrow>
   b = is_float_pair_or_str v"
  by (cases v)
     (auto simp: check_if_model_is_trained_for_task_def py_get_def
           split: list.splits sum.splits)

text \<open>
  C9. The check returns true exactly for a first element that is a pair starting with
  a float, or a string, and false for every other shape. On class-probability vectors the
  code does not return false: the first element is a float, and taking its length raises
  a TypeError.
\<close>

theorem check_raises_on_class_probabilities:
  "check_if_model_is_trained_for_task [PyList [PyFloat 0.1, PyFloat 0.9]] = Inl TypeError \<and>
   is_float_pair_or_str (PyFloat 0.1) = False"
  by (simp add: check_if_model_is_trained_for_task_def py_get_def)

subsection \<open>Frameworks that cannot handle the task\<close>

text \<open>
  C7. With the spaCy framework, the preprocessing of the question-answering task fails
  with \<open>FrameworkCannotHandleTask\<close>, naming the framework and the task; the stage has
  run once and no inference call has been made.
\<close>

theorem spacy_preprocessing_fails_before_inference:
  "preprocess_and_predict SPACY cfg tok examples predict =
     \<lparr>outcome = Inl (FrameworkCannotHandleTask ''spaCy'' (pretty_name cfg)),
      preprocess_calls = 1, inference_calls = 0\<rparr>"
  by (simp add: preprocess_and_predict_def preprocess_stage_def spacy_preprocess_fn_def)

subsection \<open>The best answer\<close>

text \<open>The last element of a list sorted by a key has the greatest key; the first element
  of the list sorted by decreasing key is the first element with the greatest key.\<close>

lemma sorted_last_is_max:
  assumes "sorted (map f ys)" and "y \<in> set ys"
  shows "f y \<le> f (last ys)"
proof -
  from assms(2) obtain i where i: "i < length ys" "ys ! i = y"
    by (auto simp: in_set_conv_nth)
  then have ne: "ys \<noteq> []" by auto
  have "map f ys ! i \<le> map f ys ! (length ys - 1)"
    using assms(1) i(1) by (intro sorted_nth_mono) auto
  then show ?thesis using i ne by (simp add: last_conv_nth)
qed

lemma sort_key_nonempty: "xs \<noteq> [] \<Longrightarrow> sort_key f xs \<noteq> []"
  by (metis length_sort length_0_conv)

lemma sorted_reverse_nonempty: "xs \<noteq> [] \<Longrightarrow> sorted_reverse f xs \<noteq> []"
  by (simp add: sorted_reverse_def sort_key_nonempty)

lemma hd_sorted_reverse_in_set:
  assumes "xs \<noteq> []"
  shows "hd (sorted_reverse f xs) \<in> set xs"
proof -
  have "hd (sorted_reverse f xs) \<in> set (sorted_reverse f xs)"
    using assms by (intro hd_in_set sorted_reverse_nonempty)
  then show ?thesis by (simp add: sorted_reverse_def)
qed

lemma hd_sorted_reverse_max:
  assumes "x \<in> set xs"
  shows "f x \<le> f (hd (sorted_reverse f xs))"
proof -
  have "f x \<le> f (last (sort_key f (rev xs)))"
    using assms by (intro sorted_last_is_max) simp_all
  then show ?thesis by (simp add: sorted_reverse_def hd_rev)
qed

lemma last_filter_keep:
  "xs \<noteq> [] \<Longrightarrow> P (last xs) \<Longrightarrow> last (filter P xs) = last xs"
  by (induction xs) (auto simp: filter_empty_conv)

lemma hd_sorted_reverse_first_max:
  assumes "xs \<noteq> []"
  shows "hd (sorted_reverse f xs) = hd (filter (\<lambda>x. f x = f (hd (sorted_reverse f xs))) xs)"
proof -
  let ?ys = "sort_key f (rev xs)"
  let ?b = "last ?ys"
  have ne: "?ys \<noteq> []" using assms by (simp add: sort_key_nonempty)
  have b: "hd (sorted_reverse f xs) = ?b" by (simp add: sorted_reverse_def hd_rev)
  have "?b = last (filter (\<lambda>y. f y = f ?b) ?ys)"
    using last_filter_keep [of ?ys "\<lambda>y. f y = f ?b"] ne by simp
  also have "\<dots> = last (filter (\<lambda>y. f y = f ?b) (rev xs))"
    by (simp only: sort_key_stable)
  also have "\<dots> = hd (filter (\<lambda>y. f y = f ?b) xs)"
    by (simp add: last_rev rev_filter [symmetric] del: rev_filter)
  finally show ?thesis using b by simp
qed

lemma best_answer_of_Nil: "best_answer_of [] = \<lparr>score = 0, answer_text = ''''\<rparr>"
  by (simp add: best_answer_of_def)

lemma best_answer_of_in_set: "va \<noteq> [] \<Longrightarrow> best_answer_of va \<in> set va"
  by (simp add: best_answer_of_def hd_sorted_reverse_in_set)

lemma best_answer_of_max: "a \<in> set va \<Longrightarrow> score a \<le> score (best_answer_of va)"
  by (cases "va = []") (auto simp: best_answer_of_def hd_sorted_reverse_max)

lemma best_answer_of_first:
  "va \<noteq> [] \<Longrightarrow>
   best_answer_of va = hd (filter (\<lambda>a. score a = score (best_answer_of va)) va)"
  using hd_sorted_reverse_first_max [of va score] by (simp add: best_answer_of_def)


subsection \<open>The null-answer reference score\<close>

lemma py_index_absent: "v \<notin> set xs \<Longrightarrow> py_index xs v = Inl ValueError"
  by (induction xs) auto

lemma py_index_Inr:
  "py_index xs v = Inr c \<Longrightarrow> c < length xs \<and> xs ! c = v \<and> (\<forall>j<c. xs ! j \<noteq> v)"
proof (induction xs arbitrary: c)
  case Nil
  then show ?case by simp
next
  case (Cons x xs)
  show ?case
  proof (cases "x = v")
    case True
    with Cons.prems show ?thesis by simp
  next
    case False
    with Cons.prems obtain k where k: "py_index xs v = Inr k" "c = Suc k"
      by (auto split: sum.splits)
    from Cons.IH [OF k(1)] False k(2) show ?thesis
      by (auto simp: nth_Cons split: nat.splits)
  qed
qed


lemma resolve_feature_Inr:
  assumes "resolve_feature P S E cls ctx fi st = Inr st'"
  shows "fi < length P \<and> fi < length S \<and> fi < length E \<and>
         (\<exists>n. feature_null_score (P ! fi) (S ! fi) (E ! fi) cls = Inr n \<and>
              fst st' = max (fst st) n \<and>
              snd st' = snd st @ feature_answers ctx (offset_mapping (P ! fi)) (S ! fi) (E ! fi))"
  using assms
  by (auto simp: resolve_feature_def py_get_def Let_def max_def split: sum.splits if_splits)

lemma Max_insert_max:
  "finite A \<Longrightarrow> Max (insert (max a b) A) = Max (insert a (insert b A))"
  by (cases "A = {}") (simp_all add: max.assoc)

lemma resolve_features_null_scores:
  assumes "resolve_features P S E cls ctx fis st = Inr st'"
  shows "\<exists>ns. length ns = length fis \<and>
           (\<forall>k<length fis. fis ! k < length P \<and> fis ! k < length S \<and> fis ! k < length E \<and>
              feature_null_score (P ! (fis ! k)) (S ! (fis ! k)) (E ! (fis ! k)) cls = Inr (ns ! k)) \<and>
           fst st' = Max (set (fst st # ns))"
  using assms
proof (induction fis arbitrary: st)
  case Nil
  then show ?case by simp
next
  case (Cons fi fis)
  from Cons.prems obtain st1 where
    st1: "resolve_feature P S E cls ctx fi st = Inr st1"
    and rest: "resolve_features P S E cls ctx fis st1 = Inr st'"
    by (auto split: sum.splits)
  from resolve_feature_Inr [OF st1] obtain n where
    fi: "fi < length P" "fi < length S" "fi < length E"
    and n: "feature_null_score (P ! fi) (S ! fi) (E ! fi) cls = Inr n"
    and m: "fst st1 = max (fst st) n"
    by blast
  from Cons.IH [OF rest] obtain ns where
    len: "length ns = length fis"
    and each: "\<forall>k<length fis. fis ! k < length P \<and> fis ! k < length S \<and> fis ! k < length E \<and>
        feature_null_score (P ! (fis ! k)) (S ! (fis ! k)) (E ! (fis ! k)) cls = Inr (ns ! k)"
    and mx: "fst st' = Max (set (fst st1 # ns))"
    by blast
  have "fst st' = Max (set (fst st # n # ns))"
    using mx m Max_insert_max [of "set ns" "fst st" n] by simp
  moreover have "\<forall>k<length (fi # fis). (fi # fis) ! k < length P \<and> (fi # fis) ! k < length S \<and>
        (fi # fis) ! k < length E \<and>
        feature_null_score (P ! ((fi # fis) ! k)) (S ! ((fi # fis) ! k)) (E ! ((fi # fis) ! k)) cls
          = Inr ((n # ns) ! k)"
    using fi n each by (auto simp: nth_Cons split: nat.splits)
  ultimately show ?case using len
    by (intro exI [of _ "n # ns"]) simp
qed

lemma resolve_features_nonneg:
  assumes "resolve_features P S E cls ctx fis (0, va0) = Inr (mn, va)"
  shows "0 \<le> mn"
proof -
  from resolve_features_null_scores [OF assms] obtain ns where
    "mn = Max (set (0 # ns))" by auto
  then show ?thesis by simp
qed

lemma resolve_example_Inr:
  assumes "resolve_example P S E cls fpe i ex = Inr p"
  shows "\<exists>mn va. resolve_features P S E cls (context_str ex) (fpe i) (0, []) = Inr (mn, va) \<and>
                  p = final_prediction ex mn va"
  using assms by (auto simp: resolve_example_def split: sum.splits)


subsection \<open>The final decision\<close>

text \<open>
  C2. When the resolver returns a prediction for an example, with reference score
  \<open>mn\<close> and recorded answers \<open>va\<close>: the predicted text is the text of the best answer if
  its score exceeds \<open>mn\<close> and the empty string otherwise; the best answer is the first
  recorded answer of greatest score, or the fake answer with the empty text and score 0
  when nothing was recorded, and then the predicted text is empty; if no recorded answer
  has a score above \<open>mn\<close>, the predicted text is empty; \<open>no_answer_probability\<close> is 0.
\<close>

theorem final_decision:
  assumes "resolve_example P S E cls fpe i ex = Inr p"
  shows "\<exists>mn va.
           resolve_features P S E cls (context_str ex) (fpe i) (0, []) = Inr (mn, va) \<and>
           prediction_text p =
             (if mn < score (best_answer_of va) then answer_text (best_answer_of va) else '''') \<and>
           (va = [] \<longrightarrow> best_answer_of va = \<lparr>score = 0, answer_text = ''''\<rparr> \<and>
                         prediction_text p = '''') \<and>
           (va \<noteq> [] \<longrightarrow>
              best_answer_of va = hd (filter (\<lambda>a. score a = Max (score ` set va)) va)) \<and>
           ((\<forall>a \<in> set va. score a \<le> mn) \<longrightarrow> prediction_text p = '''') \<and>
           no_answer_probability p = 0"
proof -
  from resolve_example_Inr [OF assms] obtain mn va where
    rf: "resolve_features P S E cls (context_str ex) (fpe i) (0, []) = Inr (mn, va)"
    and p: "p = final_prediction ex mn va" by blast
  have nonneg: "0 \<le> mn" using resolve_features_nonneg [OF rf] .
  have ptext: "prediction_text p =
      (if mn < score (best_answer_of va) then answer_text (best_answer_of va) else '''')"
    using p by (simp add: final_prediction_def Let_def)
  have empty: "va = [] \<longrightarrow> best_answer_of va = \<lparr>score = 0, answer_text = ''''\<rparr> \<and>
      prediction_text p = ''''"
    using ptext nonneg by (auto simp: best_answer_of_Nil)
  have first: "va \<noteq> [] \<longrightarrow>
      best_answer_of va = hd (filter (\<lambda>a. score a = Max (score ` set va)) va)"
  proof
    assume ne: "va \<noteq> []"
    have "score (best_answer_of va) = Max (score ` set va)"
    proof (rule Max_eqI [symmetric])
      show "finite (score ` set va)" by simp
      show "score (best_answer_of va) \<in> score ` set va"
        using best_answer_of_in_set [OF ne] by blast
      show "\<And>y. y \<in> score ` set va \<Longrightarrow> y \<le> score (best_answer_of va)"
        using best_answer_of_max by blast
    qed
    then show "best_answer_of va = hd (filter (\<lambda>a. score a = Max (score ` set va)) va)"
      using best_answer_of_first [OF ne] by simp
  qed
  have null: "(\<forall>a \<in> set va. score a \<le> mn) \<longrightarrow> prediction_text p = ''''"
  proof (cases "va = []")
    case True
    then show ?thesis using empty by simp
  next
    case False
    then show ?thesis using ptext best_answer_of_in_set [OF False] by auto
  qed
  have "no_answer_probability p = 0"
    using p by (simp add: final_prediction_def Let_def)
  then show ?thesis using rf ptext empty first null by blast
qed

subsection \<open>Predictions and labels are aligned\<close>

lemma resolve_example_id:
  "resolve_example P S E cls fpe i ex = Inr p \<Longrightarrow> prediction_id p = example_id ex"
  by (auto simp: resolve_example_def final_prediction_def Let_def split: sum.splits)

lemma resolve_examples_Inr:
  assumes "resolve_examples P S E cls fpe l = Inr ps"
  shows "length ps = length l \<and>
         (\<forall>k<length l. resolve_example P S E cls fpe (fst (l ! k)) (snd (l ! k)) = Inr (ps ! k))"
  using assms
proof (induction l arbitrary: ps)
  case Nil
  then show ?case by simp
next
  case (Cons a l)
  obtain j ex where a: "a = (j, ex)" by (cases a)
  from Cons.prems a obtain q qs where
    q: "resolve_example P S E cls fpe j ex = Inr q"
    and qs: "resolve_examples P S E cls fpe l = Inr qs"
    and ps: "ps = q # qs"
    by (auto split: sum.splits)
  from Cons.IH [OF qs] q ps a show ?case
    by (auto simp: nth_Cons split: nat.splits)
qed


lemma resolve_examples_fails:
  assumes "k < length l" and "resolve_example P S E cls fpe (fst (l ! k)) (snd (l ! k)) = Inl e"
  shows "\<exists>e'. resolve_examples P S E cls fpe l = Inl e'"
proof (cases "resolve_examples P S E cls fpe l")
  case (Inl e')
  then show ?thesis by blast
next
  case (Inr ps)
  from resolve_examples_Inr [OF Inr] assms show ?thesis by auto
qed

lemma postprocess_predictions_Inr:
  assumes "postprocess_predictions preds ds prep cls = Inr out"
  shows "\<exists>S E fpe. split_logits preds = Inr (S, E) \<and>
           features_per_example_of ds prep = Inr fpe \<and>
           length out = length ds \<and>
           (\<forall>k<length ds. resolve_example prep S E cls fpe k (ds ! k) = Inr (out ! k))"
proof -
  from assms obtain S E fpe where
    sl: "split_logits preds = Inr (S, E)"
    and fp: "features_per_example_of ds prep = Inr fpe"
    and re: "resolve_examples prep S E cls fpe (enumerate 0 ds) = Inr out"
    by (auto simp: postprocess_predictions_def split: sum.splits)
  from resolve_examples_Inr [OF re] have
    "length out = length ds"
    "\<forall>k<length ds. resolve_example prep S E cls fpe k (ds ! k) = Inr (out ! k)"
    by (auto simp: nth_enumerate_eq)
  with sl fp show ?thesis by blast
qed

text \<open>
  C5. When the postprocessing of the predictions returns, there are as many predictions as
  labels, the prediction and the label at each position have the id of the example at
  that position, and the two lists cover the same set of ids.
\<close>

theorem predictions_and_labels_share_ids:
  assumes "postprocess_predictions preds ds prep cls = Inr out"
  shows "length out = length (postprocess_labels ds) \<and>
         (\<forall>k<length out. prediction_id (out ! k) = label_id (postprocess_labels ds ! k) \<and>
                           prediction_id (out ! k) = example_id (ds ! k)) \<and>
         set (map prediction_id out) = set (map label_id (postprocess_labels ds))"
proof -
  from postprocess_predictions_Inr [OF assms] obtain S E fpe where
    len: "length out = length ds"
    and each: "\<forall>k<length ds. resolve_example prep S E cls fpe k (ds ! k) = Inr (out ! k)"
    by blast
  have ids: "\<forall>k<length ds. prediction_id (out ! k) = example_id (ds ! k)"
    using each resolve_example_id by blast
  have lab: "map label_id (postprocess_labels ds) = map example_id ds"
    by (simp add: postprocess_labels_def comp_def)
  have "map prediction_id out = map example_id ds"
    using len ids by (intro nth_equalityI) simp_all
  moreover have "\<forall>k<length ds. label_id (postprocess_labels ds ! k) = example_id (ds ! k)"
    by (simp add: postprocess_labels_def)
  ultimately show ?thesis using len ids lab by (simp add: postprocess_labels_def)
qed

subsection \<open>Grouping the features by example\<close>

lemma id_to_index_fold:
  assumes "fold (\<lambda>(i, k) m. m(k \<mapsto> i)) (enumerate n ids) m0 x = Some i"
  shows "m0 x = Some i \<or> (n \<le> i \<and> i < n + length ids \<and> ids ! (i - n) = x)"
  using assms
proof (induction ids arbitrary: n m0)
  case Nil
  then show ?case by simp
next
  case (Cons a ids)
  have unroll: "fold (\<lambda>(i, k) m. m(k \<mapsto> i)) (enumerate n (a # ids)) m0 =
      fold (\<lambda>(i, k) m. m(k \<mapsto> i)) (enumerate (Suc n) ids) (m0(a \<mapsto> n))"
    by simp
  from Cons.IH [OF Cons.prems [unfolded unroll]] consider
      (upd) "(m0(a \<mapsto> n)) x = Some i"
    | (later) "Suc n \<le> i" "i < Suc n + length ids" "ids ! (i - Suc n) = x"
    by blast
  then show ?case
  proof cases
    case upd
    then show ?thesis by (cases "x = a") auto
  next
    case later
    from later(1) have "i - n = Suc (i - Suc n)" by arith
    with later show ?thesis by simp
  qed
qed

lemma id_to_index_of_Some:
  "id_to_index_of ids x = Some i \<Longrightarrow> i < length ids \<and> ids ! i = x"
  using id_to_index_fold [of 0 ids Map.empty x i] by (simp add: id_to_index_of_def)

lemma group_features_grows:
  assumes "group_features m (enumerate n feats) fpe0 = Inr fpe"
  shows "set (fpe0 x) \<subseteq> set (fpe x)"
  using assms
proof (induction feats arbitrary: n fpe0)
  case Nil
  then show ?case by simp
next
  case (Cons f feats)
  from Cons.prems obtain ei where
    ei: "m (feature_id f) = Some ei"
    and rest: "group_features m (enumerate (Suc n) feats) (fpe0(ei := fpe0 ei @ [n])) = Inr fpe"
    by (auto split: option.splits)
  from Cons.IH [OF rest] show ?case by (auto split: if_splits)
qed

lemma group_features_covers:
  assumes "group_features m (enumerate n feats) fpe0 = Inr fpe" and "k < length feats"
  shows "\<exists>ei. m (feature_id (feats ! k)) = Some ei \<and> n + k \<in> set (fpe ei)"
  using assms
proof (induction feats arbitrary: n fpe0 k)
  case Nil
  then show ?case by simp
next
  case (Cons f feats)
  from Cons.prems(1) obtain ei where
    ei: "m (feature_id f) = Some ei"
    and rest: "group_features m (enumerate (Suc n) feats) (fpe0(ei := fpe0 ei @ [n])) = Inr fpe"
    by (auto split: option.splits)
  show ?case
  proof (cases k)
    case 0
    have "n \<in> set ((fpe0(ei := fpe0 ei @ [n])) ei)" by simp
    then have "n \<in> set (fpe ei)" using group_features_grows [OF rest, of ei] by blast
    with 0 ei show ?thesis by auto
  next
    case (Suc j)
    with Cons.prems(2) have "j < length feats" by simp
    from Cons.IH [OF rest this] Suc show ?thesis by simp
  qed
qed


lemma features_per_example_of_owner:
  assumes "features_per_example_of ds prep = Inr fpe" and "fi < length prep"
  shows "\<exists>ei<length ds. fi \<in> set (fpe ei) \<and> example_id (ds ! ei) = feature_id (prep ! fi)"
proof -
  from group_features_covers [of _ 0 prep _ fpe fi] assms obtain ei where
    ei: "id_to_index_of (map example_id ds) (feature_id (prep ! fi)) = Some ei"
    and mem: "fi \<in> set (fpe ei)"
    by (auto simp: features_per_example_of_def)
  from id_to_index_of_Some [OF ei] mem show ?thesis by auto
qed


lemma resolve_feature_without_cls:
  assumes "fi < length P" and "cls \<notin> set (input_ids (P ! fi))"
  shows "resolve_feature P S E cls ctx fi st =
           (if fi < length S \<and> fi < length E then Inl ValueError else Inl IndexError)"
  using assms
  by (simp add: resolve_feature_def py_get_def feature_null_score_def py_index_absent)

lemma resolve_features_without_cls:
  assumes "fi \<in> set fis" and "cls \<notin> set (input_ids (P ! fi))"
  shows "\<exists>e. resolve_features P S E cls ctx fis st = Inl e"
proof (cases "resolve_features P S E cls ctx fis st")
  case (Inl e)
  then show ?thesis by blast
next
  case (Inr st')
  from assms(1) obtain k where k: "k < length fis" "fis ! k = fi"
    by (auto simp: in_set_conv_nth)
  from resolve_features_null_scores [OF Inr] k obtain v where
    "feature_null_score (P ! fi) (S ! fi) (E ! fi) cls = Inr v" by auto
  with assms(2) show ?thesis
    by (simp add: feature_null_score_def py_index_absent)
qed

text \<open>
  C8. If some feature of the prepared dataset does not contain the CLS token id, the
  postprocessing of the predictions raises an error. The step that processes this
  feature raises a ValueError (an IndexError when the feature has no row of logits),
  whatever the state of the loop: the feature is neither skipped nor recovered from.
\<close>

theorem missing_cls_token_aborts:
  assumes "fi < length prep" and "cls \<notin> set (input_ids (prep ! fi))"
  shows "(\<exists>e. postprocess_predictions preds ds prep cls = Inl e) \<and>
         (\<forall>S E ctx st. resolve_feature prep S E cls ctx fi st =
            (if fi < length S \<and> fi < length E then Inl ValueError else Inl IndexError))"
proof
  show "\<exists>e. postprocess_predictions preds ds prep cls = Inl e"
  proof (cases "postprocess_predictions preds ds prep cls")
    case (Inl e)
    then show ?thesis by blast
  next
    case (Inr out)
    from postprocess_predictions_Inr [OF Inr] obtain S E fpe where
      fp: "features_per_example_of ds prep = Inr fpe"
      and each: "\<forall>k<length ds. resolve_example prep S E cls fpe k (ds ! k) = Inr (out ! k)"
      by blast
    from features_per_example_of_owner [OF fp assms(1)] obtain ei where
      ei: "ei < length ds" "fi \<in> set (fpe ei)" by blast
    from each ei(1) have "resolve_example prep S E cls fpe ei (ds ! ei) = Inr (out ! ei)" by blast
    from resolve_example_Inr [OF this] obtain mn va where
      "resolve_features prep S E cls (context_str (ds ! ei)) (fpe ei) (0, []) = Inr (mn, va)"
      by blast
    with resolve_features_without_cls [OF ei(2) assms(2)]
    show ?thesis by (metis sum.distinct(1))
  qed
next
  show "\<forall>S E ctx st. resolve_feature prep S E cls ctx fi st =
          (if fi < length S \<and> fi < length E then Inl ValueError else Inl IndexError)"
    using resolve_feature_without_cls [OF assms] by blast
qed




subsection \<open>The offsets written by the feature builder\<close>

lemma rewrite_offsets_Inr:
  assumes "rewrite_offsets seq (enumerate n row) = Inr row'"
  shows "length row' = length row \<and>
         (\<forall>k<length row. n + k < length seq \<and>
            row' ! k = (if seq ! (n + k) = Some 1 then row ! k else (-1, -1)))"
  using assms
proof (induction row arbitrary: n row')
  case Nil
  then show ?case by simp
next
  case (Cons off row)
  from Cons.prems obtain offs where
    n: "n < length seq"
    and rest: "rewrite_offsets seq (enumerate (Suc n) row) = Inr offs"
    and row': "row' = (if seq ! n = Some context_index then off else (-1, -1)) # offs"
    by (auto simp: py_get_def split: sum.splits if_splits)
  from Cons.IH [OF rest] n row' show ?case
    by (auto simp: nth_Cons context_index_def split: nat.splits)
qed

lemma prepare_loop_Inr:
  assumes "prepare_loop ex_ids seqs sm is (ids, offsets) = Inr (ids', offsets')"
    and "distinct is"
  shows "length offsets' = length offsets \<and>
         (\<forall>i. i \<notin> set is \<longrightarrow> offsets' ! i = offsets ! i) \<and>
         (\<forall>i \<in> set is. i < length offsets \<and> i < length seqs \<and>
            rewrite_offsets (seqs ! i) (enumerate 0 (offsets ! i)) = Inr (offsets' ! i))"
  using assms
proof (induction "is" arbitrary: ids offsets)
  case Nil
  then show ?case by simp
next
  case (Cons i rest)
  from Cons.prems(1) obtain ident row' where
    i: "i < length seqs" "i < length offsets"
    and row': "rewrite_offsets (seqs ! i) (enumerate 0 (offsets ! i)) = Inr row'"
    and loop: "prepare_loop ex_ids seqs sm rest (ids @ [ident], offsets[i := row']) =
                 Inr (ids', offsets')"
    by (auto simp: py_get_def split: sum.splits if_splits)
  from Cons.prems(2) have d: "distinct rest" and fresh: "i \<notin> set rest" by simp_all
  from Cons.IH [OF loop d] have
    len: "length offsets' = length offsets"
    and keep: "\<forall>j. j \<notin> set rest \<longrightarrow> offsets' ! j = offsets[i := row'] ! j"
    and rewritten: "\<forall>j \<in> set rest. j < length offsets \<and> j < length seqs \<and>
        rewrite_offsets (seqs ! j) (enumerate 0 (offsets[i := row'] ! j)) = Inr (offsets' ! j)"
    by simp_all
  have here: "offsets' ! i = row'" using keep fresh i(2) by simp
  have "\<forall>j \<in> set (i # rest). j < length offsets \<and> j < length seqs \<and>
        rewrite_offsets (seqs ! j) (enumerate 0 (offsets ! j)) = Inr (offsets' ! j)"
  proof
    fix j assume j: "j \<in> set (i # rest)"
    show "j < length offsets \<and> j < length seqs \<and>
        rewrite_offsets (seqs ! j) (enumerate 0 (offsets ! j)) = Inr (offsets' ! j)"
    proof (cases "j = i")
      case True
      then show ?thesis using i row' here by simp
    next
      case False
      with j have "j \<in> set rest" by simp
      with rewritten False show ?thesis by auto
    qed
  qed
  moreover have "\<forall>j. j \<notin> set (i # rest) \<longrightarrow> offsets' ! j = offsets ! j"
    using keep by auto
  ultimately show ?case using len by blast
qed

text \<open>
  C4. When the feature builder returns, the offset mapping has one row per row of the
  tokenizer's offset mapping; in every window, every row keeps its length, and the entry
  at every position is the tokenizer's entry, unchanged, if the sequence id of the
  position is 1 (the context), and the pair \<open>(-1, -1)\<close> otherwise (question, special
  and padding tokens).
\<close>

theorem offsets_outside_context_are_sentinel:
  assumes "prepare_test_examples examples tok = Inr out"
  shows "let enc = tokenize tok (map lstrip (batch_question examples)) (batch_context examples)
                     (model_max_length tok - model_max_length tok div 4)
                     (model_max_length tok div 4)
         in length (prep_offset_mapping out) = length (enc_offset_mapping enc) \<and>
            (\<forall>i<length (enc_input_ids enc).
               i < length (enc_offset_mapping enc) \<and> i < length (enc_sequence_ids enc) \<and>
               length (prep_offset_mapping out ! i) = length (enc_offset_mapping enc ! i) \<and>
               (\<forall>k<length (enc_offset_mapping enc ! i).
                  k < length (enc_sequence_ids enc ! i) \<and>
                  prep_offset_mapping out ! i ! k =
                    (if enc_sequence_ids enc ! i ! k = Some 1
                     then enc_offset_mapping enc ! i ! k else (-1, -1))))"
proof -
  define enc where "enc = tokenize tok (map lstrip (batch_question examples))
      (batch_context examples) (model_max_length tok - model_max_length tok div 4)
      (model_max_length tok div 4)"
  from assms obtain ids offsets where
    loop: "prepare_loop (batch_id examples) (enc_sequence_ids enc)
             (overflow_to_sample_mapping enc) [0 ..< length (enc_input_ids enc)]
             ([], enc_offset_mapping enc) = Inr (ids, offsets)"
    and out: "prep_offset_mapping out = offsets"
    by (auto simp: prepare_test_examples_def Let_def enc_def split: sum.splits)
  from prepare_loop_Inr [OF loop] have
    len: "length offsets = length (enc_offset_mapping enc)"
    and rows: "\<forall>i<length (enc_input_ids enc).
        i < length (enc_offset_mapping enc) \<and> i < length (enc_sequence_ids enc) \<and>
        rewrite_offsets (enc_sequence_ids enc ! i) (enumerate 0 (enc_offset_mapping enc ! i)) =
          Inr (offsets ! i)"
    by simp_all
  have "\<forall>i<length (enc_input_ids enc).
          i < length (enc_offset_mapping enc) \<and> i < length (enc_sequence_ids enc) \<and>
          length (offsets ! i) = length (enc_offset_mapping enc ! i) \<and>
          (\<forall>k<length (enc_offset_mapping enc ! i).
             k < length (enc_sequence_ids enc ! i) \<and>
             offsets ! i ! k =
               (if enc_sequence_ids enc ! i ! k = Some 1
                then enc_offset_mapping enc ! i ! k else (-1, -1)))"
  proof (intro allI impI)
    fix i assume i: "i < length (enc_input_ids enc)"
    with rows have r: "i < length (enc_offset_mapping enc)" "i < length (enc_sequence_ids enc)"
      "rewrite_offsets (enc_sequence_ids enc ! i) (enumerate 0 (enc_offset_mapping enc ! i)) =
          Inr (offsets ! i)" by simp_all
    from rewrite_offsets_Inr [OF r(3)] r(1,2)
    show "i < length (enc_offset_mapping enc) \<and> i < length (enc_sequence_ids enc) \<and>
          length (offsets ! i) = length (enc_offset_mapping enc ! i) \<and>
          (\<forall>k<length (enc_offset_mapping enc ! i).
             k < length (enc_sequence_ids enc ! i) \<and>
             offsets ! i ! k =
               (if enc_sequence_ids enc ! i ! k = Some 1
                then enc_offset_mapping enc ! i ! k else (-1, -1)))"
      by simp
  qed
  with len out show ?thesis
    unfolding Let_def enc_def [symmetric] by simp
qed

subsection \<open>Runs on the concrete inputs\<close>

lemmas rome_defs =
  rome_dataset_def rome_features_def rome_logits_def rome_start_logits_def rome_end_logits_def
  rome_features_per_example_def rome_predictions_def

lemma rome_split_logits: "split_logits rome_logits = Inr (rome_start_logits, rome_end_logits)"
  by (simp add: split_logits_def rome_defs)

lemma rome_grouping:
  "features_per_example_of rome_dataset rome_features = Inr rome_features_per_example"
  by (simp add: features_per_example_of_def id_to_index_of_def rome_defs)

lemma rome_first_example:
  "resolve_example rome_features rome_start_logits rome_end_logits 101
     rome_features_per_example 0 (rome_dataset ! 0) = Inr (rome_predictions ! 0)"
  by (simp add: resolver_defs rome_defs)

lemma rome_run:
  "postprocess_predictions rome_logits rome_dataset rome_features 101 = Inr rome_predictions"
  by (simp add: postprocess_predictions_def rome_split_logits rome_grouping)
     (simp add: resolver_defs rome_defs)


theorem final_decision_witness:
  "resolve_example rome_features rome_start_logits rome_end_logits 101
     rome_features_per_example 0 (rome_dataset ! 0) = Inr (rome_predictions ! 0) \<and>
   (\<exists>mn va.
      resolve_features rome_features rome_start_logits rome_end_logits 101
        (context_str (rome_dataset ! 0)) (rome_features_per_example 0) (0, []) = Inr (mn, va) \<and>
      prediction_text (rome_predictions ! 0) =
        (if mn < score (best_answer_of va) then answer_text (best_answer_of va) else '''') \<and>
      no_answer_probability (rome_predictions ! 0) = 0)"
  using rome_first_example final_decision [OF rome_first_example]
  by blast

theorem predictions_and_labels_witness:
  "postprocess_predictions rome_logits rome_dataset rome_features 101 = Inr rome_predictions \<and>
   length rome_predictions = length (postprocess_labels rome_dataset) \<and>
   set (map prediction_id rome_predictions) = set (map label_id (postprocess_labels rome_dataset))"
  using rome_run predictions_and_labels_share_ids [OF rome_run]
  by blast

theorem missing_cls_token_witness:
  "0 < length headless_features \<and> 101 \<notin> set (input_ids (headless_features ! 0)) \<and>
   (\<exists>e. postprocess_predictions rome_logits rome_dataset headless_features 101 = Inl e) \<and>
   resolve_feature headless_features rome_start_logits rome_end_logits 101 ''Rome is old'' 0 (0, [])
     = Inl ValueError"
proof -
  have a: "0 < length headless_features" by (simp add: headless_features_def)
  have b: "101 \<notin> set (input_ids (headless_features ! 0))" by (simp add: headless_features_def)
  from missing_cls_token_aborts [OF a b, of rome_logits rome_dataset] have
    "\<exists>e. postprocess_predictions rome_logits rome_dataset headless_features 101 = Inl e"
    and "resolve_feature headless_features rome_start_logits rome_end_logits 101 ''Rome is old'' 0 (0, [])
      = (if 0 < length rome_start_logits \<and> 0 < length rome_end_logits
         then Inl ValueError else Inl IndexError)"
    by blast+
  then show ?thesis using a b by (simp add: rome_defs)
qed



lemma toy_prepare: "prepare_test_examples toy_examples toy_tokenizer = Inr toy_prepared"
  by (simp add: prepare_test_examples_def toy_examples_def toy_tokenizer_def toy_encoding_def
        toy_prepared_def py_get_def py_get_int_def context_index_def)

theorem offsets_outside_context_witness:
  "prepare_test_examples toy_examples toy_tokenizer = Inr toy_prepared \<and>
   length (prep_offset_mapping toy_prepared) = length (enc_offset_mapping toy_encoding) \<and>
   enc_sequence_ids toy_encoding ! 0 ! 3 = Some 1 \<and>
   prep_offset_mapping toy_prepared ! 0 ! 3 = enc_offset_mapping toy_encoding ! 0 ! 3 \<and>
   enc_sequence_ids toy_encoding ! 0 ! 1 = Some 0 \<and>
   prep_offset_mapping toy_prepared ! 0 ! 1 = (-1, -1) \<and>
   enc_sequence_ids toy_encoding ! 0 ! 5 = None \<and>
   prep_offset_mapping toy_prepared ! 0 ! 5 = (-1, -1)"
proof -
  have enc: "tokenize toy_tokenizer (map lstrip (batch_question toy_examples))
     (batch_context toy_examples)
     (model_max_length toy_tokenizer - model_max_length toy_tokenizer div 4)
     (model_max_length toy_tokenizer div 4) = toy_encoding"
    by (simp add: toy_tokenizer_def)
  have window: "0 < length (enc_input_ids toy_encoding)"
    and positions: "3 < length (enc_offset_mapping toy_encoding ! 0)"
      "1 < length (enc_offset_mapping toy_encoding ! 0)"
      "5 < length (enc_offset_mapping toy_encoding ! 0)"
    and seqs: "enc_sequence_ids toy_encoding ! 0 ! 3 = Some 1"
      "enc_sequence_ids toy_encoding ! 0 ! 1 = Some 0"
      "enc_sequence_ids toy_encoding ! 0 ! 5 = None"
    by (simp_all add: toy_encoding_def)
  from offsets_outside_context_are_sentinel [OF toy_prepare] enc have
    len: "length (prep_offset_mapping toy_prepared) = length (enc_offset_mapping toy_encoding)"
    and rows: "\<forall>i<length (enc_input_ids toy_encoding).
        \<forall>k<length (enc_offset_mapping toy_encoding ! i).
          prep_offset_mapping toy_prepared ! i ! k =
            (if enc_sequence_ids toy_encoding ! i ! k = Some 1
             then enc_offset_mapping toy_encoding ! i ! k else (-1, -1))"
    by (simp_all add: Let_def)
  from rows window positions have
    "prep_offset_mapping toy_prepared ! 0 ! 3 =
       (if enc_sequence_ids toy_encoding ! 0 ! 3 = Some 1
        then enc_offset_mapping toy_encoding ! 0 ! 3 else (-1, -1))"
    "prep_offset_mapping toy_prepared ! 0 ! 1 =
       (if enc_sequence_ids toy_encoding ! 0 ! 1 = Some 1
        then enc_offset_mapping toy_encoding ! 0 ! 1 else (-1, -1))"
    "prep_offset_mapping toy_prepared ! 0 ! 5 =
       (if enc_sequence_ids toy_encoding ! 0 ! 5 = Some 1
        then enc_offset_mapping toy_encoding ! 0 ! 5 else (-1, -1))"
    by blast+
  with seqs len toy_prepare show ?thesis by simp
qed

end
